theory Spec2Isabelle
  imports Main "HOL-Library.Word"
begin

section \<open>AdjList: overlaps of exactly k-1 bases between contigs\<close>

text \<open>
  A shallow embedding of \<^verbatim>\<open>AdjList/AdjList.cpp\<close>. The program reads contigs, keeps the
  two terminal (k-1)-mers of each, indexes them in two hash tables and adds an edge
  for every pair of matching ends. Assertions of the source are modelled as errors.
\<close>

subsection \<open>Characters and the C++ stream extraction of an unsigned\<close>

text \<open>\<^verbatim>\<open>isdigit\<close>, \<^verbatim>\<open>isalpha\<close> and \<^verbatim>\<open>isspace\<close> of the C locale.\<close>

definition isdigit :: "char \<Rightarrow> bool" where
  "isdigit c = (c \<in> set ''0123456789'')"

definition isalpha :: "char \<Rightarrow> bool" where
  "isalpha c = (c \<in> set ''ABCDEFGHIJKLMNOPQRSTUVWXYZabcdefghijklmnopqrstuvwxyz'')"

definition isspace :: "char \<Rightarrow> bool" where
  "isspace c = (c \<in> {CHR '' '', CHR 0x09, CHR 0x0A, CHR 0x0B, CHR 0x0C, CHR 0x0D})"

definition digit_value :: "char \<Rightarrow> nat" where
  "digit_value c = of_char c - 48"

definition dec_value :: "string \<Rightarrow> nat" where
  "dec_value ds = foldl (\<lambda>a c. 10 * a + digit_value c) 0 ds"

text \<open>
  An \<^verbatim>\<open>istringstream\<close>: the characters not yet consumed and the two state bits that
  the extraction reads and writes.
\<close>

record istringstream =
  buf :: string
  failbit :: bool
  eofbit :: bool

definition istringstream_of :: "string \<Rightarrow> istringstream" where
  "istringstream_of s = \<lparr>buf = s, failbit = False, eofbit = False\<rparr>"

text \<open>
  \<^verbatim>\<open>ss >> x\<close> for an \<^verbatim>\<open>unsigned x\<close> (32 bits), following the C++11 rules of formatted
  input: a stream that is not good sets \<^verbatim>\<open>failbit\<close> and leaves \<^verbatim>\<open>x\<close> alone; leading white
  space is skipped, and reaching the end there fails without storing; then an optional
  sign and the longest run of decimal digits are read. No digit stores 0 and fails, a
  value beyond the type stores the largest value and fails, a leading minus negates
  in the unsigned type. The second component is the value stored into \<^verbatim>\<open>x\<close>, if any.
\<close>

definition extract_unsigned :: "istringstream \<Rightarrow> istringstream \<times> 32 word option" where
  "extract_unsigned ss =
     (if failbit ss \<or> eofbit ss then (ss\<lparr>failbit := True\<rparr>, None)
      else
        let rest = dropWhile isspace (buf ss) in
        if rest = [] then (\<lparr>buf = [], failbit = True, eofbit = True\<rparr>, None)
        else
          let neg = (hd rest = CHR ''-'');
              body = (if hd rest = CHR ''-'' \<or> hd rest = CHR ''+'' then tl rest else rest);
              ds = takeWhile isdigit body;
              after = dropWhile isdigit body;
              n = dec_value ds
          in
            if ds = [] then (\<lparr>buf = after, failbit = True, eofbit = (after = [])\<rparr>, Some 0)
            else if 2 ^ 32 \<le> n then
              (\<lparr>buf = after, failbit = True, eofbit = (after = [])\<rparr>, Some (- 1))
            else
              (\<lparr>buf = after, failbit = False, eofbit = (after = [])\<rparr>,
               Some (if neg then - of_nat n else of_nat n)))"

subsection \<open>Errors and outcomes\<close>

text \<open>
  Every \<^verbatim>\<open>assert\<close> of the source aborts the run; the model names the failed check.
  \<open>IndexOutOfRange\<close> stands for a read of \<^verbatim>\<open>contigs[i]\<close> beyond the vector.
\<close>

datatype error =
  AlphabetError | SequenceTooShort | InvalidAlphabet | LengthMismatch
  | InputStreamError | IndexOutOfRange

datatype exit_status = EXIT_SUCCESS | EXIT_FAILURE

subsection \<open>K-mers\<close>

type_synonym kmer = string

text \<open>
  Modelled from the spec: the complement of a base and the two alphabets belong to
  \<^verbatim>\<open>Kmer\<close> and \<^verbatim>\<open>Sequence\<close>, which are not among the sources. A base is swapped for its
  complementary base, A with T and C with G, and any other character is left as it is;
  a k-mer is over the four nucleotides or, in colour space, over the four colour codes.
\<close>

definition complementBase :: "char \<Rightarrow> char" where
  "complementBase c =
     (if c = CHR ''A'' then CHR ''T'' else if c = CHR ''T'' then CHR ''A''
      else if c = CHR ''C'' then CHR ''G'' else if c = CHR ''G'' then CHR ''C'' else c)"

definition in_alphabet :: "bool \<Rightarrow> char \<Rightarrow> bool" where
  "in_alphabet colourSpace c =
     (if colourSpace then c \<in> set ''0123'' else c \<in> set ''ACGT'')"

text \<open>
  Modelled from the spec: the class \<^verbatim>\<open>Kmer\<close> (\<^verbatim>\<open>Kmer.h\<close>) is not among the sources.
  A k-mer is a sequence over the active alphabet, the four nucleotides or the four
  colour codes; its construction from a slice fails with \<open>InvalidAlphabet\<close> if a
  character is outside the alphabet and with \<open>LengthMismatch\<close> if the slice does
  not have the configured length.
\<close>

definition Kmer :: "bool \<Rightarrow> nat \<Rightarrow> string \<Rightarrow> error + kmer" where
  "Kmer colourSpace L s =
     (if \<not> list_all (in_alphabet colourSpace) s then Inl InvalidAlphabet
      else if length s \<noteq> L then Inl LengthMismatch
      else Inr s)"

text \<open>
  Modelled from the spec: \<^verbatim>\<open>reverseComplement\<close> is not among the sources. Each symbol
  is mapped to its complement and the order is reversed. The nucleotides pair A with T
  and C with G; a colour code, which encodes the step between two adjacent bases, is
  its own complement.
\<close>

definition reverseComplement :: "bool \<Rightarrow> kmer \<Rightarrow> kmer" where
  "reverseComplement colourSpace x =
     rev (map (\<lambda>c. if colourSpace then c else complementBase c) x)"

subsection \<open>Oriented contigs, contig ends and the graph\<close>

text \<open>
  Modelled from the spec: \<^verbatim>\<open>ContigNode\<close> (\<^verbatim>\<open>ContigNode.h\<close>) is not among the sources.
  An oriented contig is \<^verbatim>\<open>ContigNode(id, sense)\<close>; \<open>sense\<close> is true for the reverse
  complement. \<^verbatim>\<open>~u\<close> flips the sense and \<^verbatim>\<open>u ^ b\<close> flips it when \<open>b\<close> holds.
\<close>

record ContigNode =
  contig_id :: nat
  sense :: bool

text \<open>Modelled from the spec: \<^verbatim>\<open>~u\<close> of \<^verbatim>\<open>ContigNode\<close>, the same contig in the other sense.\<close>

definition complement_node :: "ContigNode \<Rightarrow> ContigNode" where
  "complement_node u = u\<lparr>sense := \<not> sense u\<rparr>"

text \<open>Modelled from the spec: \<^verbatim>\<open>u ^ b\<close> of \<^verbatim>\<open>ContigNode\<close>, \<open>u\<close> flipped when \<open>b\<close> holds.\<close>

definition xor_node :: "ContigNode \<Rightarrow> bool \<Rightarrow> ContigNode" where
  "xor_node u b = u\<lparr>sense := (sense u \<noteq> b)\<rparr>"

type_synonym edge_descriptor = "ContigNode \<times> ContigNode"

text \<open>The two terminal k-mers of a contig: \<^verbatim>\<open>struct ContigEndSeq\<close>.\<close>

record ContigEndSeq =
  l :: kmer
  r :: kmer

text \<open>
  Modelled from the spec: \<^verbatim>\<open>ContigProperties\<close> (\<^verbatim>\<open>ContigProperties.h\<close>) is not among the
  sources. The properties of a contig are its length and its coverage.
\<close>

record ContigProperties =
  length' :: nat
  coverage :: "32 word"

text \<open>
  Modelled from the spec: \<^verbatim>\<open>ContigGraph\<close> and \<^verbatim>\<open>DirectedGraph\<close> are not among the
  sources. The graph holds the properties of its contigs in the order they were
  added and its directed edges in the order they were added, without suppressing
  duplicates; its vertex enumeration lists every contig in both orientations.
\<close>

record Graph =
  vertex_props :: "ContigProperties list"
  edges :: "edge_descriptor list"

definition empty_graph :: Graph where
  "empty_graph = \<lparr>vertex_props = [], edges = []\<rparr>"

text \<open>Modelled from the spec: \<^verbatim>\<open>add_vertex\<close> adds a contig with its properties.\<close>

definition add_vertex :: "ContigProperties \<Rightarrow> Graph \<Rightarrow> Graph" where
  "add_vertex vp g = g\<lparr>vertex_props := vertex_props g @ [vp]\<rparr>"

text \<open>
  Modelled from the spec: \<^verbatim>\<open>add_edge<DG>(u, v, g)\<close> adds the directed edge from \<open>u\<close> to
  \<open>v\<close>, whether or not it is there already.
\<close>

definition add_edge :: "ContigNode \<Rightarrow> ContigNode \<Rightarrow> Graph \<Rightarrow> Graph" where
  "add_edge u v g = g\<lparr>edges := edges g @ [(u, v)]\<rparr>"

text \<open>
  Modelled from the spec: \<^verbatim>\<open>vertices(g)\<close> enumerates both orientations of every contig
  as distinct oriented contigs, here in the order of the contigs, as read first.
\<close>

definition vertices :: "Graph \<Rightarrow> ContigNode list" where
  "vertices g =
     concat (map (\<lambda>i. [\<lparr>contig_id = i, sense = False\<rparr>, \<lparr>contig_id = i, sense = True\<rparr>])
                 [0..<length (vertex_props g)])"

subsection \<open>Edge distance\<close>

text \<open>
  \<^verbatim>\<open>get(edge_distance_t, g, e)\<close> returns \<^verbatim>\<open>-opt::k + 1\<close>: \<^verbatim>\<open>opt::k\<close> is unsigned, so the
  sum is computed modulo \<open>2^32\<close> and then read as an \<^verbatim>\<open>int\<close>.
\<close>

definition get_edge_distance :: "32 word \<Rightarrow> Graph \<Rightarrow> edge_descriptor \<Rightarrow> int" where
  "get_edge_distance k g e = sint (- k + 1)"

subsection \<open>Coverage\<close>

text \<open>
  \<^verbatim>\<open>getCoverage\<close>: \<^verbatim>\<open>unsigned length, coverage = 0; ss >> length >> coverage;\<close>.
  The first value is stored into \<^verbatim>\<open>length\<close> and never read.
\<close>

definition getCoverage :: "string \<Rightarrow> 32 word" where
  "getCoverage comment =
     (let ss = istringstream_of comment;
          (ss1, len) = extract_unsigned ss;
          (ss2, cov) = extract_unsigned ss1
      in case cov of None \<Rightarrow> 0 | Some c \<Rightarrow> c)"

subsection \<open>Reading contigs\<close>

text \<open>
  Modelled from the spec: \<^verbatim>\<open>FastaReader\<close> and \<^verbatim>\<open>FastaRecord\<close> are not among the
  sources. A record is an identifier, a comment and a sequence, as the reader delivers
  them; an input as \<^verbatim>\<open>readContigs\<close> sees it is the list of the records that
  \<^verbatim>\<open>in >> rec\<close> yields and whether the stream then stands at its end (\<^verbatim>\<open>in.eof()\<close>).
\<close>

record FastaRecord =
  rec_id :: string
  rec_comment :: string
  rec_seq :: string

record FastaFile =
  records :: "FastaRecord list"
  eof :: bool

text \<open>
  The process-wide variables that \<^verbatim>\<open>readContigs\<close> reads and writes (\<^verbatim>\<open>opt::k\<close>
  as \<open>kmer_size\<close>, \<^verbatim>\<open>opt::colourSpace\<close>, the k-mer length set by
  \<^verbatim>\<open>Kmer::setLength\<close>, the names registered by \<^verbatim>\<open>ContigID::insert\<close>) and its two
  reference arguments \<^verbatim>\<open>g\<close> and \<^verbatim>\<open>contigs\<close>. Modelled from the spec: \<^verbatim>\<open>ContigID\<close> is
  not among the sources; \<^verbatim>\<open>ContigID::insert\<close> gives the next identifier, in the order
  of the input, to the name of the record.
\<close>

record reader_state =
  kmer_size :: "32 word"
  Kmer_length :: nat
  colourSpace :: bool
  names :: "string list"
  graph :: Graph
  contigs :: "ContigEndSeq list"

text \<open>\<^verbatim>\<open>seq[0]\<close> of a constant string: the terminating null character when it is empty.\<close>

definition first_symbol :: "string \<Rightarrow> char" where
  "first_symbol s = (case s of [] \<Rightarrow> CHR 0x00 | c # _ \<Rightarrow> c)"

text \<open>
  The body of the loop of \<^verbatim>\<open>readContigs\<close>; \<open>count\<close> is its value before \<^verbatim>\<open>count++\<close>.
  The checks are in the order of the source: the first symbol, then the length, then the
  construction of the two k-mers. A failed assertion aborts the run, so the vertex that
  the source has added before the assertion on the length is seen only on success.
\<close>

definition read_record :: "32 word \<Rightarrow> FastaRecord \<Rightarrow> reader_state \<Rightarrow> error + reader_state" where
  "read_record count rec st =
     (let seq = rec_seq rec;
          cs = (if count = 0 then isdigit (first_symbol seq) else colourSpace st)
      in
        if count \<noteq> 0 \<and> colourSpace st \<and> \<not> isdigit (first_symbol seq) then Inl AlphabetError
        else if count \<noteq> 0 \<and> \<not> colourSpace st \<and> \<not> isalpha (first_symbol seq) then Inl AlphabetError
        else
          let vp = \<lparr>length' = length seq, coverage = getCoverage (rec_comment rec)\<rparr>;
              overlap = unat (kmer_size st - 1)
          in
            if \<not> overlap < length seq then Inl SequenceTooShort
            else
              case Kmer cs (Kmer_length st) (take overlap seq) of
                Inl e \<Rightarrow> Inl e
              | Inr kl \<Rightarrow>
                 (case Kmer cs (Kmer_length st) (drop (length seq - overlap) seq) of
                    Inl e \<Rightarrow> Inl e
                  | Inr kr \<Rightarrow>
                      Inr (st\<lparr>colourSpace := cs,
                              names := names st @ [rec_id rec],
                              graph := add_vertex vp (graph st),
                              contigs := contigs st @ [\<lparr>l = kl, r = kr\<rparr>]\<rparr>)))"

fun read_records :: "32 word \<Rightarrow> FastaRecord list \<Rightarrow> reader_state \<Rightarrow> error + reader_state" where
  "read_records count [] st = Inr st"
| "read_records count (rec # recs) st =
     (case read_record count rec st of
        Inl e \<Rightarrow> Inl e
      | Inr st' \<Rightarrow> read_records (count + 1) recs st')"

definition readContigs :: "FastaFile \<Rightarrow> reader_state \<Rightarrow> error + reader_state" where
  "readContigs file st =
     (case read_records 0 (records file) st of
        Inl e \<Rightarrow> Inl e
      | Inr st' \<Rightarrow> if eof file then Inr st' else Inl InputStreamError)"

fun read_all :: "FastaFile list \<Rightarrow> reader_state \<Rightarrow> error + reader_state" where
  "read_all [] st = Inr st"
| "read_all (file # files) st =
     (case readContigs file st of
        Inl e \<Rightarrow> Inl e
      | Inr st' \<Rightarrow> read_all files st')"

subsection \<open>The index of the end sequences\<close>

text \<open>
  \<^verbatim>\<open>hash_map<Kmer, vector<ContigNode> >\<close>: \<^verbatim>\<open>m[k]\<close> is the empty vector for a key that
  was never written.
\<close>

type_synonym KmerMap = "kmer \<rightharpoonup> ContigNode list"

definition at :: "KmerMap \<Rightarrow> kmer \<Rightarrow> ContigNode list" where
  "at m key = (case m key of None \<Rightarrow> [] | Some us \<Rightarrow> us)"

definition push_back_at :: "KmerMap \<Rightarrow> kmer \<Rightarrow> ContigNode \<Rightarrow> KmerMap" where
  "push_back_at m key u = m(key \<mapsto> at m key @ [u])"

text \<open>\<^verbatim>\<open>ends[b]\<close> for a \<^verbatim>\<open>bool b\<close>: the second table when \<open>b\<close> holds.\<close>

definition ends_at :: "KmerMap \<times> KmerMap \<Rightarrow> bool \<Rightarrow> KmerMap" where
  "ends_at ends b = (if b then snd ends else fst ends)"

fun index_ends :: "bool \<Rightarrow> nat \<Rightarrow> ContigEndSeq list \<Rightarrow> KmerMap \<times> KmerMap \<Rightarrow> KmerMap \<times> KmerMap" where
  "index_ends cs i [] ends = ends"
| "index_ends cs i (c # rest) ends =
     (let u = \<lparr>contig_id = i, sense = False\<rparr>;
          e0 = push_back_at (fst ends) (r c) u;
          e1 = push_back_at (snd ends) (l c) u;
          e0' = push_back_at e0 (reverseComplement cs (l c)) (complement_node u);
          e1' = push_back_at e1 (reverseComplement cs (r c)) (complement_node u)
      in index_ends cs (Suc i) rest (e0', e1'))"

subsection \<open>Adding the edges\<close>

fun add_edges_from :: "ContigNode \<Rightarrow> ContigNode list \<Rightarrow> Graph \<Rightarrow> Graph" where
  "add_edges_from u [] gr = gr"
| "add_edges_from u (v # vs) gr = add_edges_from u vs (add_edge u (xor_node v (sense u)) gr)"

fun add_edges ::
  "ContigEndSeq list \<Rightarrow> KmerMap \<times> KmerMap \<Rightarrow> ContigNode list \<Rightarrow> Graph \<Rightarrow> error + Graph" where
  "add_edges cgs ends [] gr = Inr gr"
| "add_edges cgs ends (u # us) gr =
     (if \<not> contig_id u < length cgs then Inl IndexOutOfRange
      else
        let contig = cgs ! contig_id u;
            kmer = (if sense u then l contig else r contig);
            found = at (ends_at ends (\<not> sense u)) kmer
        in add_edges cgs ends us (add_edges_from u found gr))"

subsection \<open>The program\<close>

text \<open>
  What \<^verbatim>\<open>getopt_long\<close> returns, one value per option of the command line: \<^verbatim>\<open>'?'\<close>,
  \<^verbatim>\<open>'k'\<close> with its argument, \<^verbatim>\<open>'v'\<close>, \<^verbatim>\<open>OPT_HELP\<close>, \<^verbatim>\<open>OPT_VERSION\<close>, and 0 for the
  options that only set \<^verbatim>\<open>opt::format\<close>.
\<close>

datatype option_event = Opt_unknown | Opt_k string | Opt_v | Opt_help | Opt_version | Opt_format

record options =
  die :: bool
  opt_k :: "32 word"
  opt_verbose :: nat

fun getopt_loop :: "option_event list \<Rightarrow> options \<Rightarrow> exit_status + options" where
  "getopt_loop [] opts = Inr opts"
| "getopt_loop (Opt_unknown # es) opts = getopt_loop es (opts\<lparr>die := True\<rparr>)"
| "getopt_loop (Opt_k arg # es) opts =
     getopt_loop es
       (opts\<lparr>opt_k := (case snd (extract_unsigned (istringstream_of arg)) of
                          None \<Rightarrow> opt_k opts | Some v \<Rightarrow> v)\<rparr>)"
| "getopt_loop (Opt_v # es) opts = getopt_loop es (opts\<lparr>opt_verbose := opt_verbose opts + 1\<rparr>)"
| "getopt_loop (Opt_help # es) opts = Inl EXIT_SUCCESS"
| "getopt_loop (Opt_version # es) opts = Inl EXIT_SUCCESS"
| "getopt_loop (Opt_format # es) opts = getopt_loop es opts"

text \<open>The files named on the command line and the standard input, read when none is named.\<close>

record program_input =
  files :: "FastaFile list"
  stdin :: FastaFile

datatype outcome = Exited exit_status | Aborted error | Output Graph

definition initial_state :: "32 word \<Rightarrow> reader_state" where
  "initial_state kk =
     \<lparr>kmer_size = kk, Kmer_length = unat (kk - 1), colourSpace = False, names = [],
      graph = empty_graph, contigs = []\<rparr>"

text \<open>
  \<^verbatim>\<open>main\<close> after the options: read the files named, or the standard input when none is
  named, index the ends, add the edges, write the graph. The messages on \<^verbatim>\<open>cerr\<close>,
  \<^verbatim>\<open>ContigID::lock\<close> and the format of the output have no part in the graph.
\<close>

definition inputs :: "program_input \<Rightarrow> FastaFile list" where
  "inputs inp = (if files inp \<noteq> [] then files inp else [stdin inp])"

definition build :: "32 word \<Rightarrow> program_input \<Rightarrow> error + Graph" where
  "build kk inp =
     (case read_all (inputs inp) (initial_state kk) of
        Inl e \<Rightarrow> Inl e
      | Inr st \<Rightarrow>
          let ends = index_ends (colourSpace st) 0 (contigs st) (Map.empty, Map.empty)
          in add_edges (contigs st) ends (vertices (graph st)) (graph st))"

definition main :: "option_event list \<Rightarrow> program_input \<Rightarrow> outcome" where
  "main evs inp =
     (case getopt_loop evs \<lparr>die = False, opt_k = 0, opt_verbose = 0\<rparr> of
        Inl status \<Rightarrow> Exited status
      | Inr opts \<Rightarrow>
          if die opts \<or> opt_k opts \<le> 0 then Exited EXIT_FAILURE
          else (case build (opt_k opts) inp of
                  Inl e \<Rightarrow> Aborted e
                | Inr gr \<Rightarrow> Output gr))"

subsection \<open>Notions used to state the properties\<close>

text \<open>All records of a run in the order they are read, and their sequences.\<close>

definition all_records :: "FastaFile list \<Rightarrow> FastaRecord list" where
  "all_records fs = concat (map records fs)"

definition sequences :: "program_input \<Rightarrow> string list" where
  "sequences inp = map rec_seq (all_records (inputs inp))"

text \<open>The overlap length \<^verbatim>\<open>opt::k - 1\<close>, computed in \<^verbatim>\<open>unsigned\<close>.\<close>

definition overlap_length :: "32 word \<Rightarrow> nat" where
  "overlap_length kk = unat (kk - 1)"

text \<open>The first and the last \<open>L\<close> symbols of a sequence.\<close>

definition prefix_of :: "nat \<Rightarrow> string \<Rightarrow> string" where
  "prefix_of L s = take L s"

definition suffix_of :: "nat \<Rightarrow> string \<Rightarrow> string" where
  "suffix_of L s = drop (length s - L) s"

definition end_seqs :: "nat \<Rightarrow> FastaRecord \<Rightarrow> ContigEndSeq" where
  "end_seqs L rec = \<lparr>l = prefix_of L (rec_seq rec), r = suffix_of L (rec_seq rec)\<rparr>"

definition properties_of :: "FastaRecord \<Rightarrow> ContigProperties" where
  "properties_of rec =
     \<lparr>length' = length (rec_seq rec), coverage = getCoverage (rec_comment rec)\<rparr>"

text \<open>
  The value that the code holds in \<^verbatim>\<open>opt::colourSpace\<close> after reading: every record
  that meets \<^verbatim>\<open>count++ == 0\<close>, so the first record of every file, sets it from its
  first symbol.
\<close>

fun detect_records :: "32 word \<Rightarrow> FastaRecord list \<Rightarrow> bool \<Rightarrow> bool" where
  "detect_records count [] cs = cs"
| "detect_records count (rec # recs) cs =
     detect_records (count + 1) recs
       (if count = 0 then isdigit (first_symbol (rec_seq rec)) else cs)"

fun detect_files :: "FastaFile list \<Rightarrow> bool \<Rightarrow> bool" where
  "detect_files [] cs = cs"
| "detect_files (file # fs) cs = detect_files fs (detect_records 0 (records file) cs)"

text \<open>
  The alphabet of a run as the design has it: detected on the first record of the run,
  from its first symbol, and the same for all input of the run. It is false (the
  nucleotides) for a run without records.
\<close>

definition detected_colourSpace :: "program_input \<Rightarrow> bool" where
  "detected_colourSpace inp =
     (case all_records (inputs inp) of
        [] \<Rightarrow> False
      | rec # _ \<Rightarrow> isdigit (first_symbol (rec_seq rec)))"

text \<open>
  The value of \<^verbatim>\<open>opt::k\<close> after the loop over the options, when no option has ended the
  program: every \<^verbatim>\<open>-k\<close> whose extraction stores a value replaces it.
\<close>

fun k_after_options :: "option_event list \<Rightarrow> 32 word \<Rightarrow> 32 word" where
  "k_after_options [] kk = kk"
| "k_after_options (Opt_k arg # es) kk =
     k_after_options es
       (case snd (extract_unsigned (istringstream_of arg)) of None \<Rightarrow> kk | Some v \<Rightarrow> v)"
| "k_after_options (ev # es) kk = k_after_options es kk"

text \<open>A contig in a given orientation: itself, or its reverse complement.\<close>

definition oriented :: "bool \<Rightarrow> bool \<Rightarrow> string \<Rightarrow> string" where
  "oriented cs s seq = (if s then reverseComplement cs seq else seq)"

text \<open>
  The entries of one table of the index, contig by contig: table 0 (\<open>b\<close> false) holds the
  right end for the contig as read and the reverse complement of the left end for the
  reversed contig; table 1 (\<open>b\<close> true) holds the left end and the reverse complement of
  the right end.
\<close>

definition index_entries :: "bool \<Rightarrow> bool \<Rightarrow> nat \<Rightarrow> ContigEndSeq \<Rightarrow> (kmer \<times> ContigNode) list" where
  "index_entries cs b i c =
     (if b then [(l c, \<lparr>contig_id = i, sense = False\<rparr>),
                 (reverseComplement cs (r c), \<lparr>contig_id = i, sense = True\<rparr>)]
      else [(r c, \<lparr>contig_id = i, sense = False\<rparr>),
            (reverseComplement cs (l c), \<lparr>contig_id = i, sense = True\<rparr>)])"

definition all_entries :: "bool \<Rightarrow> bool \<Rightarrow> nat \<Rightarrow> ContigEndSeq list \<Rightarrow> (kmer \<times> ContigNode) list" where
  "all_entries cs b i cgs = concat (map (\<lambda>(j, c). index_entries cs b j c) (enumerate i cgs))"

text \<open>The values that a list of entries gives to a key, in the order of the entries.\<close>

definition values_for :: "kmer \<Rightarrow> (kmer \<times> ContigNode) list \<Rightarrow> ContigNode list" where
  "values_for key es = map snd (filter (\<lambda>e. fst e = key) es)"

text \<open>
  The edges that the edge loop adds for the vertices \<open>us\<close>: one for every value that the
  table of the opposite sense gives to the probed end of \<open>u\<close>.
\<close>

definition overlap_edges :: "bool \<Rightarrow> ContigEndSeq list \<Rightarrow> ContigNode list \<Rightarrow> edge_descriptor list" where
  "overlap_edges cs cgs us =
     concat (map (\<lambda>u. map (\<lambda>v. (u, xor_node v (sense u)))
                   (values_for (if sense u then l (cgs ! contig_id u) else r (cgs ! contig_id u))
                      (all_entries cs (\<not> sense u) 0 cgs)))
                 us)"

subsection \<open>Example inputs\<close>

definition no_input :: program_input where
  "no_input = \<lparr>files = [], stdin = \<lparr>records = [], eof = True\<rparr>\<rparr>"

text \<open>Two contigs \<^verbatim>\<open>ACGTAC\<close> and \<^verbatim>\<open>TACGGG\<close> in one file, for k = 4.\<close>

definition two_contigs :: program_input where
  "two_contigs =
     \<lparr>files = [\<lparr>records = [\<lparr>rec_id = ''a'', rec_comment = ''6 10'', rec_seq = ''ACGTAC''\<rparr>,
                            \<lparr>rec_id = ''b'', rec_comment = '''', rec_seq = ''TACGGG''\<rparr>],
                 eof = True\<rparr>],
      stdin = \<lparr>records = [], eof = True\<rparr>\<rparr>"

text \<open>A nucleotide contig and a colour-space contig, in one file and in two files.\<close>

definition mixed_one_file :: program_input where
  "mixed_one_file =
     \<lparr>files = [\<lparr>records = [\<lparr>rec_id = ''a'', rec_comment = '''', rec_seq = ''ACGT''\<rparr>,
                            \<lparr>rec_id = ''b'', rec_comment = '''', rec_seq = ''0123''\<rparr>],
                 eof = True\<rparr>],
      stdin = \<lparr>records = [], eof = True\<rparr>\<rparr>"

definition mixed_two_files :: program_input where
  "mixed_two_files =
     \<lparr>files = [\<lparr>records = [\<lparr>rec_id = ''a'', rec_comment = '''', rec_seq = ''ACGT''\<rparr>], eof = True\<rparr>,
               \<lparr>records = [\<lparr>rec_id = ''b'', rec_comment = '''', rec_seq = ''0123''\<rparr>], eof = True\<rparr>],
      stdin = \<lparr>records = [], eof = True\<rparr>\<rparr>"



text \<open>One contig of 2147483650 bases, for k = 2147483650.\<close>

definition long_contig :: program_input where
  "long_contig =
     \<lparr>files = [\<lparr>records = [\<lparr>rec_id = ''a'', rec_comment = '''',
                              rec_seq = replicate 2147483650 (CHR ''A'')\<rparr>],
                 eof = True\<rparr>],
      stdin = \<lparr>records = [], eof = True\<rparr>\<rparr>"

section \<open>Properties\<close>

subsection \<open>Reading\<close>

lemma Kmer_Inr_iff:
  "Kmer cs L s = Inr x \<longleftrightarrow> list_all (in_alphabet cs) s \<and> length s = L \<and> x = s"
  by (auto simp: Kmer_def)

lemma read_record_Inr:
  assumes "read_record count rec st = Inr st'"
  shows "st' = st\<lparr>colourSpace := (if count = 0 then isdigit (first_symbol (rec_seq rec)) else colourSpace st),
                  names := names st @ [rec_id rec],
                  graph := add_vertex (properties_of rec) (graph st),
                  contigs := contigs st @ [end_seqs (overlap_length (kmer_size st)) rec]\<rparr>"
    and "overlap_length (kmer_size st) < length (rec_seq rec)"
  using assms
  by (auto simp: read_record_def Let_def Kmer_Inr_iff properties_of_def end_seqs_def
      prefix_of_def suffix_of_def overlap_length_def split: if_splits sum.splits)

lemma read_records_Inr:
  assumes "read_records count recs st = Inr st'"
  shows "contigs st' = contigs st @ map (end_seqs (overlap_length (kmer_size st))) recs
       \<and> vertex_props (graph st') = vertex_props (graph st) @ map properties_of recs
       \<and> edges (graph st') = edges (graph st)
       \<and> names st' = names st @ map rec_id recs
       \<and> kmer_size st' = kmer_size st \<and> Kmer_length st' = Kmer_length st
       \<and> colourSpace st' = detect_records count recs (colourSpace st)
       \<and> (\<forall>rec \<in> set recs. overlap_length (kmer_size st) < length (rec_seq rec))"
  using assms
proof (induction recs arbitrary: count st)
  case Nil
  then show ?case by simp
next
  case (Cons rec recs)
  from Cons.prems obtain st1 where
    s1: "read_record count rec st = Inr st1" and s2: "read_records (count + 1) recs st1 = Inr st'"
    by (auto split: sum.splits)
  note r = read_record_Inr [OF s1]
  note ih = Cons.IH [OF s2]
  from r(1) have k: "kmer_size st1 = kmer_size st" by simp
  show ?case using ih r(2) by (simp add: k) (simp add: r(1) add_vertex_def)
qed

lemma readContigs_Inr:
  assumes "readContigs fl st = Inr st'"
  shows "read_records 0 (records fl) st = Inr st'"
  using assms by (auto simp: readContigs_def split: sum.splits if_splits)

lemma read_all_Inr:
  assumes "read_all fs st = Inr st'"
  shows "contigs st' = contigs st @ map (end_seqs (overlap_length (kmer_size st))) (all_records fs)
       \<and> vertex_props (graph st') = vertex_props (graph st) @ map properties_of (all_records fs)
       \<and> edges (graph st') = edges (graph st)
       \<and> names st' = names st @ map rec_id (all_records fs)
       \<and> kmer_size st' = kmer_size st \<and> Kmer_length st' = Kmer_length st
       \<and> colourSpace st' = detect_files fs (colourSpace st)
       \<and> (\<forall>rec \<in> set (all_records fs). overlap_length (kmer_size st) < length (rec_seq rec))"
  using assms
proof (induction fs arbitrary: st)
  case Nil
  then show ?case by (simp add: all_records_def)
next
  case (Cons fl fs)
  from Cons.prems obtain st1 where
    s1: "readContigs fl st = Inr st1" and s2: "read_all fs st1 = Inr st'"
    by (auto split: sum.splits)
  note r = read_records_Inr [OF readContigs_Inr [OF s1]]
  note ih = Cons.IH [OF s2]
  from r have k: "kmer_size st1 = kmer_size st" by simp
  show ?case using ih r unfolding k by (simp add: all_records_def ball_Un)
qed

subsection \<open>The index and the edges\<close>

lemma at_push_back_at:
  "at (push_back_at m key' u) key = at m key @ (if key' = key then [u] else [])"
  by (simp add: at_def push_back_at_def)

lemma dom_push_back_at: "dom (push_back_at m key u) = insert key (dom m)"
  by (simp add: push_back_at_def)

lemma index_ends_at:
  "at (ends_at (index_ends cs i cgs ends) b) key =
     at (ends_at ends b) key @ values_for key (all_entries cs b i cgs)"
proof (induction cgs arbitrary: i ends)
  case Nil
  then show ?case by (simp add: all_entries_def values_for_def)
next
  case (Cons c cgs)
  have "at (ends_at (index_ends cs i (c # cgs) ends) b) key =
        at (ends_at ends b) key @ values_for key (index_entries cs b i c)
          @ values_for key (all_entries cs b (Suc i) cgs)"
    by (simp add: Let_def Cons.IH)
       (simp add: values_for_def index_entries_def ends_at_def at_push_back_at
          complement_node_def)
  then show ?case
    by (simp add: all_entries_def values_for_def)
qed

lemma index_ends_dom:
  "dom (ends_at (index_ends cs i cgs ends) b) =
     dom (ends_at ends b) \<union> fst ` set (all_entries cs b i cgs)"
proof (induction cgs arbitrary: i ends)
  case Nil
  then show ?case by (simp add: all_entries_def)
next
  case (Cons c cgs)
  have "dom (ends_at (index_ends cs i (c # cgs) ends) b) =
        (dom (ends_at ends b) \<union> fst ` set (index_entries cs b i c))
          \<union> fst ` set (all_entries cs b (Suc i) cgs)"
    by (simp add: Let_def Cons.IH)
       (simp add: index_entries_def ends_at_def dom_push_back_at insert_commute)
  then show ?case
    by (simp add: all_entries_def image_Un Un_assoc)
qed

lemma add_edges_from_eq:
  "add_edges_from u vs gr = gr\<lparr>edges := edges gr @ map (\<lambda>v. (u, xor_node v (sense u))) vs\<rparr>"
  by (induction vs arbitrary: gr) (simp_all add: add_edge_def)

lemma add_edges_eq:
  assumes "\<forall>u \<in> set us. contig_id u < length cgs"
  shows "add_edges cgs ends us gr =
     Inr (gr\<lparr>edges := edges gr @
            concat (map (\<lambda>u. map (\<lambda>v. (u, xor_node v (sense u)))
                              (at (if sense u then fst ends else snd ends)
                                  (if sense u then l (cgs ! contig_id u) else r (cgs ! contig_id u))))
                        us)\<rparr>)"
  using assms
proof (induction us arbitrary: gr)
  case Nil
  then show ?case by simp
next
  case (Cons u us)
  then show ?case
    by (simp add: Let_def add_edges_from_eq ends_at_def)
qed

subsection \<open>Edge distance\<close>

lemma sint_neg_plus_one: "sint (- kk + 1 :: 32 word) = signed_take_bit 31 (1 - uint kk)"
proof -
  have m: "(1 - uint kk) mod 4294967296 = take_bit 32 (1 - uint kk)"
    by (simp add: take_bit_eq_mod)
  have "sint (- kk + 1) = signed_take_bit 31 ((1 - uint kk) mod 4294967296)"
    by (simp add: sint_uint uint_word_ariths)
  also have "\<dots> = signed_take_bit 31 (1 - uint kk)"
    by (simp only: m signed_take_bit_take_bit) simp
  finally show ?thesis .
qed

subsection \<open>Reverse complement and orientation\<close>

lemma complementBase_involution: "complementBase (complementBase c) = c"
  by (simp add: complementBase_def)

lemma reverseComplement_involution: "reverseComplement cs (reverseComplement cs x) = x"
  by (cases cs) (simp_all add: reverseComplement_def rev_map complementBase_involution o_def)

lemma reverseComplement_inject:
  "reverseComplement cs x = reverseComplement cs y \<longleftrightarrow> x = y"
  by (metis reverseComplement_involution)

lemma reverseComplement_swap:
  "reverseComplement cs x = y \<longleftrightarrow> x = reverseComplement cs y"
  by (metis reverseComplement_involution)

lemma length_reverseComplement: "length (reverseComplement cs x) = length x"
  by (simp add: reverseComplement_def)

lemma prefix_of_reverseComplement:
  "prefix_of L (reverseComplement cs s) = reverseComplement cs (suffix_of L s)"
  by (simp add: prefix_of_def suffix_of_def reverseComplement_def take_rev drop_map)

lemma suffix_of_reverseComplement:
  "suffix_of L (reverseComplement cs s) = reverseComplement cs (prefix_of L s)"
  by (cases "L \<le> length s")
     (simp_all add: prefix_of_def suffix_of_def reverseComplement_def drop_rev take_map)

lemma in_alphabet_complement:
  "in_alphabet cs c \<Longrightarrow> in_alphabet cs (if cs then c else complementBase c)"
  by (cases cs) (auto simp: in_alphabet_def complementBase_def)

lemma set_vertices: "set (vertices gr) = {u. contig_id u < length (vertex_props gr)}"
proof -
  have "\<And>u :: ContigNode. contig_id u < length (vertex_props gr) \<Longrightarrow>
     \<exists>i < length (vertex_props gr). u = \<lparr>contig_id = i, sense = False\<rparr> \<or> u = \<lparr>contig_id = i, sense = True\<rparr>"
    subgoal for u by (cases u) auto
    done
  then show ?thesis by (fastforce simp: vertices_def)
qed

lemma in_all_entries:
  "(key, u) \<in> set (all_entries cs b 0 cgs) \<longleftrightarrow>
     contig_id u < length cgs \<and>
     key = (if b then (if sense u then reverseComplement cs (r (cgs ! contig_id u)) else l (cgs ! contig_id u))
            else (if sense u then reverseComplement cs (l (cgs ! contig_id u)) else r (cgs ! contig_id u)))"
  by (cases u) (auto simp: all_entries_def index_entries_def in_set_enumerate_eq)

lemma in_values_for: "u \<in> set (values_for key es) \<longleftrightarrow> (key, u) \<in> set es"
  by (force simp: values_for_def)

lemma xor_node_eq:
  "xor_node v sa = \<lparr>contig_id = B, sense = sb\<rparr> \<longleftrightarrow> v = \<lparr>contig_id = B, sense = (sb \<noteq> sa)\<rparr>"
  by (cases v) (auto simp: xor_node_def)


lemma at_empty: "at Map.empty key = []"
  by (simp add: at_def)

lemma index_ends_lookup:
  "at (ends_at (index_ends cs 0 cgs (Map.empty, Map.empty)) b) key =
     values_for key (all_entries cs b 0 cgs)"
  by (simp add: index_ends_at) (simp add: ends_at_def at_empty)

lemma build_Inr:
  assumes "build kk inp = Inr gr"
  obtains st where "read_all (inputs inp) (initial_state kk) = Inr st"
    and "gr = (graph st)\<lparr>edges := overlap_edges (colourSpace st) (contigs st) (vertices (graph st))\<rparr>"
    and "contigs st = map (end_seqs (overlap_length kk)) (all_records (inputs inp))"
    and "vertex_props (graph st) = map properties_of (all_records (inputs inp))"
    and "colourSpace st = detect_files (inputs inp) False"
    and "\<forall>rec \<in> set (all_records (inputs inp)). overlap_length kk < length (rec_seq rec)"
proof -
  from assms obtain st where rd: "read_all (inputs inp) (initial_state kk) = Inr st"
    and ae: "add_edges (contigs st) (index_ends (colourSpace st) 0 (contigs st) (Map.empty, Map.empty))
               (vertices (graph st)) (graph st) = Inr gr"
    by (auto simp: build_def Let_def split: sum.splits)
  have R: "contigs st = map (end_seqs (overlap_length kk)) (all_records (inputs inp))"
    "vertex_props (graph st) = map properties_of (all_records (inputs inp))"
    "edges (graph st) = []"
    "colourSpace st = detect_files (inputs inp) False"
    "\<forall>rec \<in> set (all_records (inputs inp)). overlap_length kk < length (rec_seq rec)"
    using read_all_Inr [OF rd]
    by (simp_all add: initial_state_def empty_graph_def)
  have range: "\<forall>u \<in> set (vertices (graph st)). contig_id u < length (contigs st)"
    by (simp add: set_vertices R)
  let ?ends = "index_ends (colourSpace st) 0 (contigs st) (Map.empty, Map.empty)"
  have sel: "at (if sense u then fst ?ends else snd ?ends) key =
      values_for key (all_entries (colourSpace st) (\<not> sense u) 0 (contigs st))" for key and u :: ContigNode
    using index_ends_lookup [of "colourSpace st" "contigs st" "\<not> sense u" key]
    by (cases "sense u") (simp_all add: ends_at_def)
  from add_edges_eq [OF range, of ?ends "graph st"] ae
  have "gr = (graph st)\<lparr>edges := edges (graph st) @
            concat (map (\<lambda>u. map (\<lambda>v. (u, xor_node v (sense u)))
                              (at (if sense u then fst ?ends else snd ?ends)
                                  (if sense u then l (contigs st ! contig_id u) else r (contigs st ! contig_id u))))
                        (vertices (graph st)))\<rparr>"
    by simp
  then have g': "gr = (graph st)\<lparr>edges := overlap_edges (colourSpace st) (contigs st) (vertices (graph st))\<rparr>"
    by (simp only: sel R(3) append_Nil overlap_edges_def)
  show ?thesis by (rule that [OF rd g' R(1) R(2) R(4) R(5)])
qed

lemma in_overlap_edges:
  "(u, w) \<in> set (overlap_edges cs cgs us) \<longleftrightarrow>
     u \<in> set us \<and>
     (\<exists>v \<in> set (values_for (if sense u then l (cgs ! contig_id u) else r (cgs ! contig_id u))
                    (all_entries cs (\<not> sense u) 0 cgs)). w = xor_node v (sense u))"
  by (auto simp: overlap_edges_def)

lemma ex_xor_node:
  "(\<exists>v \<in> S. \<lparr>contig_id = B, sense = sb\<rparr> = xor_node v sa) \<longleftrightarrow>
     \<lparr>contig_id = B, sense = (sb \<noteq> sa)\<rparr> \<in> S"
  by (metis xor_node_eq)

lemma edge_iff_entry:
  assumes "build kk inp = Inr gr" and "A < length (sequences inp)"
  shows "(\<lparr>contig_id = A, sense = sa\<rparr>, \<lparr>contig_id = B, sense = sb\<rparr>) \<in> set (edges gr) \<longleftrightarrow>
     B < length (sequences inp) \<and>
     (if sa then prefix_of (overlap_length kk) (sequences inp ! A)
      else suffix_of (overlap_length kk) (sequences inp ! A)) =
     (if sa then (if sb then suffix_of (overlap_length kk) (sequences inp ! B)
                  else reverseComplement (detect_files (inputs inp) False) (prefix_of (overlap_length kk) (sequences inp ! B)))
      else (if sb then reverseComplement (detect_files (inputs inp) False) (suffix_of (overlap_length kk) (sequences inp ! B))
            else prefix_of (overlap_length kk) (sequences inp ! B)))"
proof -
  from assms(1) obtain st where
    rd: "read_all (inputs inp) (initial_state kk) = Inr st"
    and gr: "gr = (graph st)\<lparr>edges := overlap_edges (colourSpace st) (contigs st) (vertices (graph st))\<rparr>"
    and cg: "contigs st = map (end_seqs (overlap_length kk)) (all_records (inputs inp))"
    and vp: "vertex_props (graph st) = map properties_of (all_records (inputs inp))"
    and cs: "colourSpace st = detect_files (inputs inp) False"
    and ln: "\<forall>rec \<in> set (all_records (inputs inp)). overlap_length kk < length (rec_seq rec)"
    by (rule build_Inr)
  have n: "A < length (all_records (inputs inp))" using assms(2) by (simp add: sequences_def)
  have "(\<lparr>contig_id = A, sense = sa\<rparr>, \<lparr>contig_id = B, sense = sb\<rparr>) \<in> set (edges gr) \<longleftrightarrow>
     (if sa then l (contigs st ! A) else r (contigs st ! A), \<lparr>contig_id = B, sense = (sb \<noteq> sa)\<rparr>)
       \<in> set (all_entries (colourSpace st) (\<not> sa) 0 (contigs st))"
    using n by (simp add: gr in_overlap_edges ex_xor_node set_vertices vp in_values_for)
  also have "\<dots> \<longleftrightarrow> B < length (sequences inp) \<and>
     (if sa then prefix_of (overlap_length kk) (sequences inp ! A)
      else suffix_of (overlap_length kk) (sequences inp ! A)) =
     (if sa then (if sb then suffix_of (overlap_length kk) (sequences inp ! B)
                  else reverseComplement (detect_files (inputs inp) False) (prefix_of (overlap_length kk) (sequences inp ! B)))
      else (if sb then reverseComplement (detect_files (inputs inp) False) (suffix_of (overlap_length kk) (sequences inp ! B))
            else prefix_of (overlap_length kk) (sequences inp ! B)))"
    using n by (cases sa; cases sb) (auto simp: in_all_entries cg cs sequences_def end_seqs_def)
  finally show ?thesis .
qed

lemma edge_iff_overlap:
  assumes "build kk inp = Inr gr"
    and "A < length (sequences inp)" and "B < length (sequences inp)"
  shows "(\<lparr>contig_id = A, sense = sa\<rparr>, \<lparr>contig_id = B, sense = sb\<rparr>) \<in> set (edges gr) \<longleftrightarrow>
      suffix_of (overlap_length kk) (oriented (detect_files (inputs inp) False) sa (sequences inp ! A)) =
      prefix_of (overlap_length kk) (oriented (detect_files (inputs inp) False) sb (sequences inp ! B))"
  unfolding edge_iff_entry [OF assms(1,2)]
  using assms(3)
  by (cases sa; cases sb)
     (auto simp: oriented_def prefix_of_reverseComplement suffix_of_reverseComplement
        reverseComplement_inject reverseComplement_involution reverseComplement_swap)

text \<open>
  When the alphabet held after reading is the one detected on the first record of the
  run, the graph has an edge exactly for the matching ends.
\<close>

lemma edge_iff_overlap_detected:
  assumes "build kk inp = Inr gr"
    and "detect_files (inputs inp) False = detected_colourSpace inp"
    and "A < length (sequences inp)" and "B < length (sequences inp)"
  shows "(\<lparr>contig_id = A, sense = sa\<rparr>, \<lparr>contig_id = B, sense = sb\<rparr>) \<in> set (edges gr) \<longleftrightarrow>
      suffix_of (overlap_length kk) (oriented (detected_colourSpace inp) sa (sequences inp ! A)) =
      prefix_of (overlap_length kk) (oriented (detected_colourSpace inp) sb (sequences inp ! B))"
  using edge_iff_overlap [OF assms(1,3,4), of sa sb] by (simp only: assms(2))

section \<open>Evaluation of the examples\<close>

lemmas eval_defs = main_def build_def inputs_def initial_state_def readContigs_def read_record_def
  first_symbol_def isdigit_def isalpha_def isspace_def Kmer_def in_alphabet_def
  reverseComplement_def complementBase_def getCoverage_def extract_unsigned_def
  istringstream_of_def dec_value_def digit_value_def add_vertex_def add_edge_def
  vertices_def empty_graph_def at_def push_back_at_def ends_at_def complement_node_def
  xor_node_def Let_def

lemma build_two_contigs:
  "build 4 two_contigs =
     Inr \<lparr>vertex_props = [\<lparr>length' = 6, coverage = 10\<rparr>, \<lparr>length' = 6, coverage = 0\<rparr>],
          edges = [(\<lparr>contig_id = 0, sense = False\<rparr>, \<lparr>contig_id = 1, sense = False\<rparr>),
                   (\<lparr>contig_id = 1, sense = True\<rparr>, \<lparr>contig_id = 0, sense = True\<rparr>)]\<rparr>"
  by (simp add: two_contigs_def eval_defs upt_rec)

lemma first_symbol_replicate: "0 < n \<Longrightarrow> first_symbol (replicate n c) = c"
  by (cases n) (simp_all add: first_symbol_def)

lemma read_long_contig:
  "read_all (inputs long_contig) (initial_state 2147483650) =
     Inr \<lparr>kmer_size = 2147483650, Kmer_length = 2147483649, colourSpace = False, names = [''a''],
          graph = \<lparr>vertex_props = [\<lparr>length' = 2147483650, coverage = 0\<rparr>], edges = []\<rparr>,
          contigs = [\<lparr>l = replicate 2147483649 (CHR ''A''), r = replicate 2147483649 (CHR ''A'')\<rparr>]\<rparr>"
  by (simp add: long_contig_def inputs_def initial_state_def readContigs_def read_record_def
      first_symbol_replicate isdigit_def isalpha_def Kmer_def in_alphabet_def getCoverage_def
      extract_unsigned_def istringstream_of_def add_vertex_def empty_graph_def Let_def
      list_all_iff)

lemma build_long_contig:
  "build 2147483650 long_contig =
     Inr \<lparr>vertex_props = [\<lparr>length' = 2147483650, coverage = 0\<rparr>],
          edges = [(\<lparr>contig_id = 0, sense = False\<rparr>, \<lparr>contig_id = 0, sense = False\<rparr>),
                   (\<lparr>contig_id = 0, sense = True\<rparr>, \<lparr>contig_id = 0, sense = True\<rparr>)]\<rparr>"
  by (simp add: build_def read_long_contig Let_def vertices_def at_def push_back_at_def
      ends_at_def complement_node_def xor_node_def add_edge_def reverseComplement_def
      complementBase_def)

lemma read_two_contigs:
  "read_all (inputs two_contigs) (initial_state 4) =
     Inr \<lparr>kmer_size = 4, Kmer_length = 3, colourSpace = False, names = [''a'', ''b''],
          graph = \<lparr>vertex_props = [\<lparr>length' = 6, coverage = 10\<rparr>, \<lparr>length' = 6, coverage = 0\<rparr>],
                   edges = []\<rparr>,
          contigs = [\<lparr>l = ''ACG'', r = ''TAC''\<rparr>, \<lparr>l = ''TAC'', r = ''GGG''\<rparr>]\<rparr>"
  by (simp add: two_contigs_def eval_defs)



text \<open>
  A negative k-mer size is held as a large unsigned value, passes the check of
  \<^verbatim>\<open>opt::k\<close> and lets the program read its input.
\<close>

lemma negative_k_is_read:
  "k_after_options [Opt_k ''-5''] 0 = 4294967291
   \<and> main [Opt_k ''-5''] two_contigs = Aborted SequenceTooShort"
  by (simp add: two_contigs_def eval_defs)

subsection \<open>Options and rejected records\<close>

lemma getopt_loop_no_exit:
  assumes "Opt_help \<notin> set evs" and "Opt_version \<notin> set evs"
  shows "\<exists>opts'. getopt_loop evs opts = Inr opts'
           \<and> opt_k opts' = k_after_options evs (opt_k opts)"
  using assms
  by (induction evs opts rule: getopt_loop.induct) simp_all

lemma k_after_options_no_k:
  "\<forall>a. Opt_k a \<notin> set evs \<Longrightarrow> k_after_options evs kk = kk"
  by (induction evs kk rule: k_after_options.induct) auto

lemma short_record_build:
  assumes "rec \<in> set (all_records (inputs inp))"
    and "length (rec_seq rec) \<le> overlap_length kk"
  shows "\<exists>e. build kk inp = Inl e"
proof (cases "build kk inp")
  case (Inl e)
  then show ?thesis by blast
next
  case (Inr gr)
  then have "\<forall>rec \<in> set (all_records (inputs inp)). overlap_length kk < length (rec_seq rec)"
    by (auto elim: build_Inr)
  with assms show ?thesis by force
qed

lemma read_record_accepts_iff:
  assumes "overlap_length (kmer_size st) < length (rec_seq rec)"
    and "Kmer_length st = overlap_length (kmer_size st)"
  shows "(\<exists>st'. read_record count rec st = Inr st') \<longleftrightarrow>
     (count \<noteq> 0 \<longrightarrow> (if colourSpace st then isdigit (first_symbol (rec_seq rec))
                     else isalpha (first_symbol (rec_seq rec))))
     \<and> list_all (in_alphabet (if count = 0 then isdigit (first_symbol (rec_seq rec)) else colourSpace st))
          (prefix_of (overlap_length (kmer_size st)) (rec_seq rec))
     \<and> list_all (in_alphabet (if count = 0 then isdigit (first_symbol (rec_seq rec)) else colourSpace st))
          (suffix_of (overlap_length (kmer_size st)) (rec_seq rec))"
  using assms
  by (auto simp: read_record_def Let_def Kmer_def prefix_of_def suffix_of_def overlap_length_def
      split: sum.splits)

subsection \<open>Coverage\<close>

text \<open>
  Two numbers separated by white space give the second one when both fit in 32 bits,
  whatever the first is; a comment whose first extraction fails or ends the stream
  gives 0.
\<close>

lemma isspace_not_isdigit: "isspace c \<Longrightarrow> \<not> isdigit c"
  by (auto simp: isspace_def isdigit_def)

lemma isdigit_not_sign: "isdigit c \<Longrightarrow> c \<noteq> CHR ''-'' \<and> c \<noteq> CHR ''+''"
  by (auto simp: isdigit_def)

lemma extract_unsigned_number:
  assumes ws: "list_all isspace ws" and d: "d \<noteq> []" "list_all isdigit d"
    and tl: "rest = [] \<or> \<not> isdigit (hd rest)"
  shows "extract_unsigned \<lparr>buf = ws @ d @ rest, failbit = False, eofbit = False\<rparr> =
     (\<lparr>buf = rest, failbit = (2 ^ 32 \<le> dec_value d), eofbit = (rest = [])\<rparr>,
      Some (if 2 ^ 32 \<le> dec_value d then - 1 else of_nat (dec_value d)))"
proof -
  from d obtain c cs where dc: "d = c # cs" by (cases d) auto
  with d have c: "isdigit c" by simp
  then have nsp: "\<not> isspace c" using isspace_not_isdigit by blast
  have dw: "dropWhile isspace (ws @ d @ rest) = d @ rest"
    using ws nsp by (simp add: dc dropWhile_append2 list_all_iff)
  have tr: "takeWhile isdigit rest = []" "dropWhile isdigit rest = rest"
    using tl by (cases rest; simp)+
  have tw: "takeWhile isdigit (d @ rest) = d" "dropWhile isdigit (d @ rest) = rest"
    using d(2) tr by (simp_all add: takeWhile_append2 dropWhile_append2 list_all_iff)
  have hd: "(hd (d @ rest) = CHR ''-'') = False" "(hd (d @ rest) = CHR ''+'') = False"
    using isdigit_not_sign [OF c] by (simp_all add: dc)
  have ne: "(d @ rest = []) = False" "(d = []) = False"
    using d(1) by simp_all
  show ?thesis
    apply (simp only: extract_unsigned_def Let_def istringstream.simps simp_thms if_False dw)
    apply (simp only: ne hd simp_thms if_False tw)
    apply simp
    done
qed

lemma extract_unsigned_not_good:
  "failbit ss \<or> eofbit ss \<Longrightarrow> extract_unsigned ss = (ss\<lparr>failbit := True\<rparr>, None)"
  by (simp add: extract_unsigned_def)

lemma getCoverage_two_numbers:
  assumes "list_all isspace ws0" and "d1 \<noteq> []" and "list_all isdigit d1"
    and "dec_value d1 < 2 ^ 32"
    and "ws1 \<noteq> []" and "list_all isspace ws1" and "d2 \<noteq> []" and "list_all isdigit d2"
    and "dec_value d2 < 2 ^ 32"
    and "rest = [] \<or> \<not> isdigit (hd rest)"
  shows "getCoverage (ws0 @ d1 @ ws1 @ d2 @ rest) = of_nat (dec_value d2)"
proof -
  from assms(5,6) have t1: "ws1 @ d2 @ rest = [] \<or> \<not> isdigit (hd (ws1 @ d2 @ rest))"
    by (cases ws1) (auto dest: isspace_not_isdigit)
  have e1: "extract_unsigned (istringstream_of (ws0 @ d1 @ ws1 @ d2 @ rest)) =
      (\<lparr>buf = ws1 @ d2 @ rest, failbit = False, eofbit = False\<rparr>, Some (of_nat (dec_value d1)))"
    using extract_unsigned_number [OF assms(1,2,3) t1] assms(4,5)
    by (simp add: istringstream_of_def)
  have e2: "extract_unsigned \<lparr>buf = ws1 @ d2 @ rest, failbit = False, eofbit = False\<rparr> =
      (\<lparr>buf = rest, failbit = False, eofbit = (rest = [])\<rparr>, Some (of_nat (dec_value d2)))"
    using extract_unsigned_number [OF assms(6,7,8,10)] assms(9) by simp
  show ?thesis by (simp add: getCoverage_def e1 e2)
qed

lemma getCoverage_first_fails:
  assumes "failbit (fst (extract_unsigned (istringstream_of comment)))
         \<or> eofbit (fst (extract_unsigned (istringstream_of comment)))"
  shows "getCoverage comment = 0"
proof (cases "extract_unsigned (istringstream_of comment)")
  case (Pair ss1 len)
  with assms have "failbit ss1 \<or> eofbit ss1" by simp
  then show ?thesis
    by (simp add: getCoverage_def Pair extract_unsigned_not_good)
qed

section \<open>The claims\<close>

subsection \<open>C1: an edge for exactly the matching ends\<close>


subsection \<open>C2: the edges added for one vertex\<close>

text \<open>
  C2. During edge building, for every vertex \<open>u\<close> the probed k-mer is the left end of
  its contig when \<open>u\<close> is reversed and the right end otherwise; it is looked up in the
  table of the opposite sense (table 1 for \<open>u\<close> as read, table 0 for \<open>u\<close> reversed); and
  every value \<open>v\<close> found there gives one edge from \<open>u\<close> to \<open>v\<close> flipped by the sense
  of \<open>u\<close>, repeated values included.
\<close>

theorem edge_building_rule:
  assumes "\<forall>u \<in> set us. contig_id u < length cgs"
  shows "add_edges cgs ends us gr =
     Inr (gr\<lparr>edges := edges gr @
            concat (map (\<lambda>u. map (\<lambda>v. (u, xor_node v (sense u)))
                              (at (if sense u then fst ends else snd ends)
                                  (if sense u then l (cgs ! contig_id u) else r (cgs ! contig_id u))))
                        us)\<rparr>)"
  using assms by (rule add_edges_eq)

theorem edge_building_rule_witness:
  "contig_id \<lparr>contig_id = 0, sense = False\<rparr> < length [\<lparr>l = ''AC'', r = ''AC''\<rparr>, \<lparr>l = ''AC'', r = ''GG''\<rparr>]
   \<and> contig_id \<lparr>contig_id = 0, sense = True\<rparr> < length [\<lparr>l = ''AC'', r = ''AC''\<rparr>, \<lparr>l = ''AC'', r = ''GG''\<rparr>]
   \<and> add_edges [\<lparr>l = ''AC'', r = ''AC''\<rparr>, \<lparr>l = ''AC'', r = ''GG''\<rparr>]
        (index_ends False 0 [\<lparr>l = ''AC'', r = ''AC''\<rparr>, \<lparr>l = ''AC'', r = ''GG''\<rparr>] (Map.empty, Map.empty))
        [\<lparr>contig_id = 0, sense = False\<rparr>, \<lparr>contig_id = 0, sense = True\<rparr>]
        \<lparr>vertex_props = [\<lparr>length' = 3, coverage = 0\<rparr>, \<lparr>length' = 4, coverage = 0\<rparr>], edges = []\<rparr>
      = Inr \<lparr>vertex_props = [\<lparr>length' = 3, coverage = 0\<rparr>, \<lparr>length' = 4, coverage = 0\<rparr>],
             edges = [(\<lparr>contig_id = 0, sense = False\<rparr>, \<lparr>contig_id = 0, sense = False\<rparr>),
                      (\<lparr>contig_id = 0, sense = False\<rparr>, \<lparr>contig_id = 1, sense = False\<rparr>),
                      (\<lparr>contig_id = 0, sense = True\<rparr>, \<lparr>contig_id = 0, sense = True\<rparr>)]\<rparr>"
proof -
  have h: "\<forall>u \<in> set [\<lparr>contig_id = 0, sense = False\<rparr>, \<lparr>contig_id = 0, sense = True\<rparr>].
      contig_id u < length [\<lparr>l = ''AC'', r = ''AC''\<rparr>, \<lparr>l = ''AC'', r = ''GG''\<rparr>]"
    by simp
  from edge_building_rule [OF h] h show ?thesis
    by (simp add: at_def push_back_at_def complement_node_def xor_node_def reverseComplement_def
        complementBase_def Let_def)
qed

subsection \<open>C3: the entries of the index\<close>

text \<open>
  C3. The index built from the contigs holds, for every contig \<open>u\<close> taken as read,
  exactly four entries and no other: its right end with \<open>u\<close> as read in table 0, its
  left end with \<open>u\<close> as read in table 1, the reverse complement of its left end with
  \<open>u\<close> reversed in table 0, and the reverse complement of its right end with \<open>u\<close>
  reversed in table 1. Each table gives to every key the values of these entries, in
  the order of the contigs, and has no other key.
\<close>

theorem index_construction:
  "at (ends_at (index_ends cs 0 cgs (Map.empty, Map.empty)) b) key =
     values_for key (all_entries cs b 0 cgs)
   \<and> dom (ends_at (index_ends cs 0 cgs (Map.empty, Map.empty)) b) =
     fst ` set (all_entries cs b 0 cgs)
   \<and> length (all_entries cs False 0 cgs) + length (all_entries cs True 0 cgs) = 4 * length cgs"
proof -
  have len: "length (all_entries cs b' i cgs) = 2 * length cgs" for b' i
    by (induction cgs arbitrary: i) (simp_all add: all_entries_def index_entries_def)
  have d: "dom (ends_at (index_ends cs 0 cgs (Map.empty, Map.empty)) b) =
      fst ` set (all_entries cs b 0 cgs)"
    by (simp add: index_ends_dom) (simp add: ends_at_def)
  show ?thesis
    by (simp only: index_ends_lookup d len) simp
qed

subsection \<open>C4: the edge distance\<close>

text \<open>
  C4, for k up to \<open>2^31 + 1\<close>. For every graph and every edge, the edge distance is
  \<open>-(k-1)\<close>: it depends on k only.
\<close>

theorem edge_distance_constant:
  assumes "unat kk \<le> 2 ^ 31 + 1"
  shows "get_edge_distance kk gr e = - (int (unat kk) - 1)"
proof -
  define x where "x = uint kk"
  have iu: "int (unat kk) = x" by (simp add: x_def)
  have "int (unat kk) \<le> int (2 ^ 31 + 1)" using assms by (simp only: of_nat_le_iff)
  then have u: "x \<le> 2147483649" by (simp only: iu) simp
  have nn: "0 \<le> x" by (simp add: x_def)
  have "sint (- kk + 1) = signed_take_bit 31 (1 - x)"
    unfolding x_def by (rule sint_neg_plus_one)
  also have "\<dots> = 1 - x"
    using u nn by (intro signed_take_bit_int_eq_self) auto
  finally show ?thesis by (simp add: get_edge_distance_def x_def)
qed

theorem edge_distance_constant_witness:
  "unat (4 :: 32 word) \<le> 2 ^ 31 + 1 \<and>
   get_edge_distance 4
     \<lparr>vertex_props = [\<lparr>length' = 6, coverage = 10\<rparr>, \<lparr>length' = 6, coverage = 0\<rparr>],
      edges = [(\<lparr>contig_id = 0, sense = False\<rparr>, \<lparr>contig_id = 1, sense = False\<rparr>),
               (\<lparr>contig_id = 1, sense = True\<rparr>, \<lparr>contig_id = 0, sense = True\<rparr>)]\<rparr>
     (\<lparr>contig_id = 0, sense = False\<rparr>, \<lparr>contig_id = 1, sense = False\<rparr>) = - 3"
proof -
  have h: "unat (4 :: 32 word) \<le> 2 ^ 31 + 1" by simp
  from edge_distance_constant [OF h] h show ?thesis by simp
qed

text \<open>
  For k = 2147483650 and one contig of 2147483650 bases A the graph has a loop at the
  contig as read, and the distance returned for it is 2147483647, not -2147483649.
\<close>

theorem edge_distance_counterexample:
  "build 2147483650 long_contig =
     Inr \<lparr>vertex_props = [\<lparr>length' = 2147483650, coverage = 0\<rparr>],
          edges = [(\<lparr>contig_id = 0, sense = False\<rparr>, \<lparr>contig_id = 0, sense = False\<rparr>),
                   (\<lparr>contig_id = 0, sense = True\<rparr>, \<lparr>contig_id = 0, sense = True\<rparr>)]\<rparr>
   \<and> get_edge_distance 2147483650
        \<lparr>vertex_props = [\<lparr>length' = 2147483650, coverage = 0\<rparr>],
         edges = [(\<lparr>contig_id = 0, sense = False\<rparr>, \<lparr>contig_id = 0, sense = False\<rparr>),
                  (\<lparr>contig_id = 0, sense = True\<rparr>, \<lparr>contig_id = 0, sense = True\<rparr>)]\<rparr>
        (\<lparr>contig_id = 0, sense = False\<rparr>, \<lparr>contig_id = 0, sense = False\<rparr>) = 2147483647
   \<and> - (int (unat (2147483650 :: 32 word)) - 1) = - 2147483649"
  by (simp add: build_long_contig get_edge_distance_def)

subsection \<open>C5: a missing or non-positive k-mer size\<close>

text \<open>
  C5, for runs without \<^verbatim>\<open>--help\<close> and \<^verbatim>\<open>--version\<close>. For every run whose options are
  neither \<^verbatim>\<open>--help\<close> nor \<^verbatim>\<open>--version\<close>, if no k-mer size is given, or the k-mer size
  that the program holds after its options is non-positive, the program ends with
  \<^verbatim>\<open>EXIT_FAILURE\<close> whatever its input, so before any input is read.
\<close>

theorem nonpositive_k_is_fatal:
  assumes "Opt_help \<notin> set evs" and "Opt_version \<notin> set evs"
    and "(\<forall>a. Opt_k a \<notin> set evs) \<or> k_after_options evs 0 \<le> 0"
  shows "main evs inp = Exited EXIT_FAILURE"
proof -
  from getopt_loop_no_exit [OF assms(1,2), of "\<lparr>die = False, opt_k = 0, opt_verbose = 0\<rparr>"]
  obtain opts' where g: "getopt_loop evs \<lparr>die = False, opt_k = 0, opt_verbose = 0\<rparr> = Inr opts'"
    and k: "opt_k opts' = k_after_options evs 0" by auto
  from assms(3) have "k_after_options evs 0 \<le> 0"
    by (auto simp: k_after_options_no_k)
  with g k show ?thesis by (simp add: main_def)
qed

theorem nonpositive_k_is_fatal_witness:
  "Opt_help \<notin> set [Opt_k ''4'', Opt_k ''0'']
   \<and> Opt_version \<notin> set [Opt_k ''4'', Opt_k ''0'']
   \<and> k_after_options [Opt_k ''4'', Opt_k ''0''] 0 \<le> 0
   \<and> main [Opt_k ''4'', Opt_k ''0''] two_contigs = Exited EXIT_FAILURE
   \<and> main [Opt_v, Opt_format] two_contigs = Exited EXIT_FAILURE"
proof -
  have h1: "Opt_help \<notin> set [Opt_k ''4'', Opt_k ''0'']" by simp
  have h2: "Opt_version \<notin> set [Opt_k ''4'', Opt_k ''0'']" by simp
  have h3: "k_after_options [Opt_k ''4'', Opt_k ''0''] 0 \<le> 0"
    by (simp add: extract_unsigned_def istringstream_of_def isspace_def isdigit_def
        dec_value_def digit_value_def Let_def)
  have a: "main [Opt_k ''4'', Opt_k ''0''] two_contigs = Exited EXIT_FAILURE"
    using nonpositive_k_is_fatal [OF h1 h2, of two_contigs] h3 by blast
  have b: "main [Opt_v, Opt_format] two_contigs = Exited EXIT_FAILURE"
    using nonpositive_k_is_fatal [of "[Opt_v, Opt_format]" two_contigs] by simp
  from h1 h2 h3 a b show ?thesis by blast
qed

text \<open>With \<^verbatim>\<open>--help\<close> and no k-mer size the program ends with \<^verbatim>\<open>EXIT_SUCCESS\<close>.\<close>

theorem help_without_k_counterexample:
  "k_after_options [Opt_help] 0 = 0
   \<and> main [Opt_help] two_contigs = Exited EXIT_SUCCESS"
  by (simp add: main_def)

subsection \<open>C6: a sequence that is too short\<close>

text \<open>
  C6. If some record of the input has a sequence of length at most k-1, the run fails
  and yields no graph. A record with a longer sequence is never rejected for its length.
  When it is not the first record of its file (the counter of records, \<open>count\<close>, is not
  0), it is accepted exactly when its first symbol is of the class of the alphabet in
  force and its first and last k-1 symbols are over that alphabet; when it is the first
  record of the run, it is accepted exactly when its first and last k-1 symbols are over
  the alphabet that its first symbol selects.
\<close>

theorem short_record_is_fatal:
  "(rec \<in> set (all_records (inputs inp)) \<and> length (rec_seq rec) \<le> overlap_length kk \<longrightarrow>
      (\<exists>e. build kk inp = Inl e))
   \<and> (overlap_length (kmer_size st) < length (rec_seq rec) \<longrightarrow>
      read_record count rec st \<noteq> Inl SequenceTooShort)
   \<and> (overlap_length (kmer_size st) < length (rec_seq rec) \<and>
      Kmer_length st = overlap_length (kmer_size st) \<and> count \<noteq> 0 \<longrightarrow>
      ((\<exists>st'. read_record count rec st = Inr st') \<longleftrightarrow>
         (if colourSpace st then isdigit (first_symbol (rec_seq rec))
          else isalpha (first_symbol (rec_seq rec)))
         \<and> list_all (in_alphabet (colourSpace st))
              (prefix_of (overlap_length (kmer_size st)) (rec_seq rec))
         \<and> list_all (in_alphabet (colourSpace st))
              (suffix_of (overlap_length (kmer_size st)) (rec_seq rec))))
   \<and> (overlap_length (kmer_size st) < length (rec_seq rec) \<and>
      Kmer_length st = overlap_length (kmer_size st) \<and> count = 0 \<and> contigs st = [] \<longrightarrow>
      ((\<exists>st'. read_record count rec st = Inr st') \<longleftrightarrow>
         list_all (in_alphabet (isdigit (first_symbol (rec_seq rec))))
              (prefix_of (overlap_length (kmer_size st)) (rec_seq rec))
         \<and> list_all (in_alphabet (isdigit (first_symbol (rec_seq rec))))
              (suffix_of (overlap_length (kmer_size st)) (rec_seq rec))))"
proof (intro conjI impI)
  assume "rec \<in> set (all_records (inputs inp)) \<and> length (rec_seq rec) \<le> overlap_length kk"
  then show "\<exists>e. build kk inp = Inl e" by (blast intro: short_record_build)
next
  assume "overlap_length (kmer_size st) < length (rec_seq rec)"
  then show "read_record count rec st \<noteq> Inl SequenceTooShort"
    by (auto simp: read_record_def Let_def Kmer_def overlap_length_def split: sum.splits)
next
  assume a: "overlap_length (kmer_size st) < length (rec_seq rec) \<and>
      Kmer_length st = overlap_length (kmer_size st) \<and> count \<noteq> 0"
  then show "(\<exists>st'. read_record count rec st = Inr st') \<longleftrightarrow>
         (if colourSpace st then isdigit (first_symbol (rec_seq rec))
          else isalpha (first_symbol (rec_seq rec)))
         \<and> list_all (in_alphabet (colourSpace st))
              (prefix_of (overlap_length (kmer_size st)) (rec_seq rec))
         \<and> list_all (in_alphabet (colourSpace st))
              (suffix_of (overlap_length (kmer_size st)) (rec_seq rec))"
    using read_record_accepts_iff [of st rec count] by simp
next
  assume a: "overlap_length (kmer_size st) < length (rec_seq rec) \<and>
      Kmer_length st = overlap_length (kmer_size st) \<and> count = 0 \<and> contigs st = []"
  then show "(\<exists>st'. read_record count rec st = Inr st') \<longleftrightarrow>
         list_all (in_alphabet (isdigit (first_symbol (rec_seq rec))))
              (prefix_of (overlap_length (kmer_size st)) (rec_seq rec))
         \<and> list_all (in_alphabet (isdigit (first_symbol (rec_seq rec))))
              (suffix_of (overlap_length (kmer_size st)) (rec_seq rec))"
    using read_record_accepts_iff [of st rec count] by simp
qed

theorem short_record_is_fatal_witness:
  "\<lparr>rec_id = ''b'', rec_comment = '''', rec_seq = ''TACGGG''\<rparr> \<in> set (all_records (inputs two_contigs))
   \<and> length (rec_seq \<lparr>rec_id = ''b'', rec_comment = '''', rec_seq = ''TACGGG''\<rparr>) \<le> overlap_length 7
   \<and> (\<exists>e. build 7 two_contigs = Inl e)
   \<and> overlap_length (kmer_size
        \<lparr>kmer_size = 4, Kmer_length = 3, colourSpace = False, names = [''a''],
         graph = \<lparr>vertex_props = [\<lparr>length' = 6, coverage = 10\<rparr>], edges = []\<rparr>,
         contigs = [\<lparr>l = ''ACG'', r = ''TAC''\<rparr>]\<rparr>)
        < length (rec_seq \<lparr>rec_id = ''b'', rec_comment = '''', rec_seq = ''TACGGG''\<rparr>)
   \<and> (\<exists>st'. read_record 1 \<lparr>rec_id = ''b'', rec_comment = '''', rec_seq = ''TACGGG''\<rparr>
        \<lparr>kmer_size = 4, Kmer_length = 3, colourSpace = False, names = [''a''],
         graph = \<lparr>vertex_props = [\<lparr>length' = 6, coverage = 10\<rparr>], edges = []\<rparr>,
         contigs = [\<lparr>l = ''ACG'', r = ''TAC''\<rparr>]\<rparr> = Inr st')
   \<and> read_record 1 \<lparr>rec_id = ''b'', rec_comment = '''', rec_seq = ''TACGGG''\<rparr>
        \<lparr>kmer_size = 4, Kmer_length = 3, colourSpace = False, names = [''a''],
         graph = \<lparr>vertex_props = [\<lparr>length' = 6, coverage = 10\<rparr>], edges = []\<rparr>,
         contigs = [\<lparr>l = ''ACG'', r = ''TAC''\<rparr>]\<rparr> \<noteq> Inl SequenceTooShort
   \<and> contigs (initial_state 4) = []
   \<and> (\<exists>st'. read_record 0 \<lparr>rec_id = ''a'', rec_comment = ''6 10'', rec_seq = ''ACGTAC''\<rparr>
              (initial_state 4) = Inr st')"
proof -
  let ?a = "\<lparr>rec_id = ''a'', rec_comment = ''6 10'', rec_seq = ''ACGTAC''\<rparr>"
  let ?b = "\<lparr>rec_id = ''b'', rec_comment = '''', rec_seq = ''TACGGG''\<rparr>"
  let ?st = "\<lparr>kmer_size = 4, Kmer_length = 3, colourSpace = False, names = [''a''],
         graph = \<lparr>vertex_props = [\<lparr>length' = 6, coverage = 10\<rparr>], edges = []\<rparr>,
         contigs = [\<lparr>l = ''ACG'', r = ''TAC''\<rparr>]\<rparr>"
  have h1: "?b \<in> set (all_records (inputs two_contigs)) \<and> length (rec_seq ?b) \<le> overlap_length 7"
    by (simp add: all_records_def inputs_def two_contigs_def overlap_length_def)
  have h2: "overlap_length (kmer_size ?st) < length (rec_seq ?b)"
    by (simp add: overlap_length_def)
  have h3: "overlap_length (kmer_size ?st) < length (rec_seq ?b) \<and>
      Kmer_length ?st = overlap_length (kmer_size ?st) \<and> (1 :: 32 word) \<noteq> 0"
    by (simp add: overlap_length_def)
  have h4: "overlap_length (kmer_size (initial_state 4)) < length (rec_seq ?a) \<and>
      Kmer_length (initial_state 4) = overlap_length (kmer_size (initial_state 4)) \<and>
      (0 :: 32 word) = 0 \<and> contigs (initial_state 4) = []"
    by (simp add: initial_state_def overlap_length_def)
  note t = short_record_is_fatal [of ?b two_contigs 7 ?st 1]
  note u = short_record_is_fatal [of ?a two_contigs 7 "initial_state 4" 0]
  from t h1 have a: "\<exists>e. build 7 two_contigs = Inl e" by blast
  from t h2 have b: "read_record 1 ?b ?st \<noteq> Inl SequenceTooShort" by blast
  from t h3 have c: "\<exists>st'. read_record 1 ?b ?st = Inr st'"
    by (simp add: overlap_length_def prefix_of_def suffix_of_def
        first_symbol_def isalpha_def in_alphabet_def)
  from u h4 have d: "\<exists>st'. read_record 0 ?a (initial_state 4) = Inr st'"
    by (simp add: initial_state_def overlap_length_def prefix_of_def suffix_of_def
        first_symbol_def isdigit_def in_alphabet_def)
  from h1 h2 h4 a b c d show ?thesis by blast
qed

text \<open>
  For k = 4, the second record of \<open>mixed_one_file\<close> has four symbols, more than k-1, and
  the run fails at it.
\<close>

theorem long_record_rejected_counterexample:
  "overlap_length 4 < length ''0123''
   \<and> all_records (inputs mixed_one_file) =
       [\<lparr>rec_id = ''a'', rec_comment = '''', rec_seq = ''ACGT''\<rparr>,
        \<lparr>rec_id = ''b'', rec_comment = '''', rec_seq = ''0123''\<rparr>]
   \<and> build 4 mixed_one_file = Inl AlphabetError
   \<and> main [Opt_k ''4''] mixed_one_file = Aborted AlphabetError"
  by (simp add: overlap_length_def all_records_def mixed_one_file_def eval_defs)

subsection \<open>C7: one alphabet for the run\<close>

text \<open>
  C7. A numeric record after an alphabetic one is rejected when both are in one file.
  In two files it is accepted: \<^verbatim>\<open>count\<close> starts at 0 in every call of \<^verbatim>\<open>readContigs\<close>,
  so the first record of every file sets \<^verbatim>\<open>opt::colourSpace\<close> anew and is not checked.
\<close>

theorem mixed_alphabet_two_files:
  "build 4 mixed_two_files =
     Inr \<lparr>vertex_props = [\<lparr>length' = 4, coverage = 0\<rparr>, \<lparr>length' = 4, coverage = 0\<rparr>], edges = []\<rparr>
   \<and> build 4 mixed_one_file = Inl AlphabetError"
  by (simp add: mixed_two_files_def mixed_one_file_def eval_defs upt_rec)

subsection \<open>C8: the coverage of a contig\<close>

text \<open>
  C8. The coverage is the second number of the comment, and 0 when the comment has no
  second number. When the second number does not fit in 32 bits the extraction fails
  and stores the largest value, which \<^verbatim>\<open>getCoverage\<close> returns.
\<close>

theorem coverage_overflow:
  "getCoverage ''12 4294967296'' = 4294967295
   \<and> getCoverage ''12 34'' = 34 \<and> getCoverage ''12'' = 0 \<and> getCoverage ''12 x'' = 0"
  by (simp add: getCoverage_def extract_unsigned_def istringstream_of_def isspace_def isdigit_def
      dec_value_def digit_value_def Let_def)

subsection \<open>C9: the reverse complement\<close>

text \<open>
  C9. For every k-mer \<open>x\<close> of the configured length, the reverse complement of the
  reverse complement of \<open>x\<close> is \<open>x\<close>, and the reverse complement of \<open>x\<close> is a k-mer of
  the same length over the same alphabet.
\<close>

theorem reverseComplement_involutive:
  assumes "Kmer cs L s = Inr x"
  shows "reverseComplement cs (reverseComplement cs x) = x
       \<and> length (reverseComplement cs x) = L
       \<and> Kmer cs L (reverseComplement cs x) = Inr (reverseComplement cs x)"
proof -
  from assms have x: "list_all (in_alphabet cs) x" "length x = L"
    by (simp_all add: Kmer_Inr_iff)
  have "in_alphabet cs (if cs then c else complementBase c)" if "c \<in> set x" for c
    using that x(1) by (simp only: list_all_iff in_alphabet_complement)
  then have "list_all (in_alphabet cs) (reverseComplement cs x)"
    by (cases cs) (auto simp: reverseComplement_def list_all_iff)
  then show ?thesis
    using x(2) by (simp add: reverseComplement_involution length_reverseComplement Kmer_Inr_iff)
qed

theorem reverseComplement_involutive_witness:
  "Kmer False 3 ''ACG'' = Inr ''ACG''
   \<and> reverseComplement False ''ACG'' = ''CGT''
   \<and> reverseComplement False (reverseComplement False ''ACG'') = ''ACG''
   \<and> length (reverseComplement False ''ACG'') = 3
   \<and> Kmer False 3 (reverseComplement False ''ACG'') = Inr (reverseComplement False ''ACG'')"
proof -
  have h: "Kmer False 3 ''ACG'' = Inr ''ACG''"
    by (simp add: Kmer_def in_alphabet_def)
  have v: "reverseComplement False ''ACG'' = ''CGT''"
    by (simp add: reverseComplement_def complementBase_def)
  from reverseComplement_involutive [OF h] h v show ?thesis by simp
qed

subsection \<open>C10: vertices and contig ends in lockstep\<close>

text \<open>
  C10. After the input is read, the i-th record read has given the i-th vertex
  properties of the graph, the i-th entry of the table of contig ends and the i-th
  name; the graph has as many contigs as the table has entries; and for every vertex
  \<open>u\<close> of the graph, in either orientation, \<^verbatim>\<open>contigs[ContigID(u)]\<close> is in range and holds
  the ends of the record of \<open>u\<close>.
\<close>

theorem vertices_and_ends_in_lockstep:
  assumes "read_all (inputs inp) (initial_state kk) = Inr st"
  shows "vertex_props (graph st) = map properties_of (all_records (inputs inp))
       \<and> contigs st = map (end_seqs (overlap_length kk)) (all_records (inputs inp))
       \<and> names st = map rec_id (all_records (inputs inp))
       \<and> length (vertex_props (graph st)) = length (contigs st)
       \<and> (\<forall>u \<in> set (vertices (graph st)).
             contig_id u < length (contigs st)
           \<and> contigs st ! contig_id u =
               end_seqs (overlap_length kk) (all_records (inputs inp) ! contig_id u)
           \<and> vertex_props (graph st) ! contig_id u =
               properties_of (all_records (inputs inp) ! contig_id u))"
  using read_all_Inr [OF assms]
  by (simp add: initial_state_def empty_graph_def set_vertices)

theorem vertices_and_ends_in_lockstep_witness:
  "read_all (inputs two_contigs) (initial_state 4) =
     Inr \<lparr>kmer_size = 4, Kmer_length = 3, colourSpace = False, names = [''a'', ''b''],
          graph = \<lparr>vertex_props = [\<lparr>length' = 6, coverage = 10\<rparr>, \<lparr>length' = 6, coverage = 0\<rparr>],
                   edges = []\<rparr>,
          contigs = [\<lparr>l = ''ACG'', r = ''TAC''\<rparr>, \<lparr>l = ''TAC'', r = ''GGG''\<rparr>]\<rparr>
   \<and> map properties_of (all_records (inputs two_contigs)) =
       [\<lparr>length' = 6, coverage = 10\<rparr>, \<lparr>length' = 6, coverage = 0\<rparr>]
   \<and> map (end_seqs (overlap_length 4)) (all_records (inputs two_contigs)) =
       [\<lparr>l = ''ACG'', r = ''TAC''\<rparr>, \<lparr>l = ''TAC'', r = ''GGG''\<rparr>]"
  using vertices_and_ends_in_lockstep [OF read_two_contigs] read_two_contigs
  by simp

end
